theory Spec2Isabelle
  imports Main "HOL-Library.Word"
begin

section \<open>The image runner of saucectl: suite orchestration\<close>

text \<open>
  A shallow embedding of \<^verbatim>\<open>internal/saucecloud\<close>' image runner (\<^verbatim>\<open>RunProject\<close>,
  \<^verbatim>\<open>createWorkerPool\<close>, \<^verbatim>\<open>runSuites\<close>, \<^verbatim>\<open>runSuite\<close>, \<^verbatim>\<open>PollRun\<close>, \<^verbatim>\<open>collectResults\<close>,
  \<^verbatim>\<open>DownloadArtifacts\<close>, \<^verbatim>\<open>mapFiles\<close>, \<^verbatim>\<open>orDefault\<close>).

  The Job Client (\<^verbatim>\<open>ImageRunner\<close>), the file system, the clock and the contexts are the
  environment. Every answer of the environment is an input of the model, and every call
  to the Job Client is written to a trace, in the order the goroutine makes it. Log output
  is left out.
\<close>

subsection \<open>Errors and contexts\<close>

text \<open>\<^verbatim>\<open>time.Duration\<close> and \<^verbatim>\<open>time.Time\<close>: nanoseconds. No arithmetic of the source
  on them can overflow here (one subtraction of two clock readings).\<close>

type_synonym Duration = int
type_synonym Time = int

definition Hour :: Duration where
  "Hour = 3600000000000"

text \<open>The two values \<^verbatim>\<open>ctx.Err()\<close> has once a context is done; \<open>None\<close> is \<^verbatim>\<open>nil\<close>.\<close>

datatype ctx_err = DeadlineExceeded | Canceled

text \<open>
  Go's \<^verbatim>\<open>error\<close> values met by this code: \<^verbatim>\<open>context.DeadlineExceeded\<close> and
  \<^verbatim>\<open>context.Canceled\<close> themselves, an error that wraps another one (\<^verbatim>\<open>errors.Is\<close> looks
  through the wrapping), the two errors this package declares, an error made by
  \<^verbatim>\<open>fmt.Errorf\<close> (its message), and any other error of a collaborator.
  A \<^verbatim>\<open>nil\<close> error is \<open>None\<close>.
\<close>

datatype error =
    ContextError ctx_err
  | Wrapped string error
  | SuiteTimeoutError Duration
  | ErrSuiteCancelled
  | Errorf string
  | Other string

fun unwraps_to :: "error \<Rightarrow> ctx_err \<Rightarrow> bool" where
  "unwraps_to (ContextError c) t = (c = t)"
| "unwraps_to (Wrapped m e) t = unwraps_to e t"
| "unwraps_to (SuiteTimeoutError d) t = False"
| "unwraps_to ErrSuiteCancelled t = False"
| "unwraps_to (Errorf m) t = False"
| "unwraps_to (Other m) t = False"

definition errors_Is :: "error option \<Rightarrow> ctx_err \<Rightarrow> bool" where
  "errors_Is err t = (case err of None \<Rightarrow> False | Some e \<Rightarrow> unwraps_to e t)"

text \<open>
  Contexts as the tree they form: \<^verbatim>\<open>context.Background()\<close>, \<^verbatim>\<open>context.WithCancel(p)\<close>,
  \<^verbatim>\<open>context.WithTimeout(p, d)\<close>. \<open>derived_from c p\<close>: \<open>c\<close> is \<open>p\<close> or was derived from it,
  so that \<open>c\<close> is done as soon as \<open>p\<close> is.
\<close>

datatype "context" = Background | WithCancel "context" | WithTimeout "context" Duration

fun derived_from :: "context \<Rightarrow> context \<Rightarrow> bool" where
  "derived_from Background p = (p = Background)"
| "derived_from (WithCancel q) p = (p = WithCancel q \<or> derived_from q p)"
| "derived_from (WithTimeout q d) p = (p = WithTimeout q d \<or> derived_from q p)"

text \<open>\<^verbatim>\<open>r.ctx\<close>, as \<^verbatim>\<open>RunProject\<close> makes it.\<close>

definition rootCtx :: "context" where
  "rootCtx = WithCancel Background"

subsection \<open>Data\<close>

text \<open>
  The types of package \<^verbatim>\<open>imagerunner\<close> are declared outside the sources at hand; the
  records below have the fields this code reads and writes.
\<close>

record Auth =
  User :: string
  Token :: string

record File =
  Src :: string
  Dst :: string

record FileData =
  Path :: string
  Data :: string

text \<open>A Go map is a finite partial function; a \<^verbatim>\<open>nil\<close> map reads as the empty one.\<close>

record Suite =
  Name :: string
  Image :: string
  ImagePullAuth :: Auth
  EntryPoint :: string
  Timeout :: Duration
  Files :: "File list"
  Artifacts :: "string list"
  Env :: "string \<rightharpoonup> string"

record Runner =
  ID :: string
  Status :: string
  TerminationReason :: string

record Container =
  container_Name :: string
  container_Auth :: Auth

text \<open>\<^verbatim>\<open>mapEnv\<close> lists the entries of the map in the unspecified order of Go's map
  iteration; the model keeps the map.\<close>

record RunnerSpec =
  spec_Container :: Container
  spec_EntryPoint :: string
  spec_Env :: "string \<rightharpoonup> string"
  spec_Files :: "FileData list"
  spec_Artifacts :: "string list"
  spec_Metadata :: "string \<rightharpoonup> string"

record execResult =
  name :: string
  runID :: string
  status :: string
  err :: "error option"
  duration :: Duration
  startTime :: Time
  endTime :: Time
  attempts :: int

record TestResult =
  tr_Name :: string
  tr_Duration :: Duration
  tr_StartTime :: Time
  tr_EndTime :: Time
  tr_Status :: string
  tr_Attempts :: int

text \<open>Modelled from the spec: the state constants of package \<^verbatim>\<open>imagerunner\<close> are declared
  outside the sources at hand; the spec names the statuses Pending, Running, Succeeded,
  Failed, Cancelled and TimedOut.\<close>

definition StateSucceeded :: string where
  "StateSucceeded = ''Succeeded''"

definition StateCancelled :: string where
  "StateCancelled = ''Cancelled''"

definition StateFailed :: string where
  "StateFailed = ''Failed''"

definition StateRunning :: string where
  "StateRunning = ''Running''"

definition StateTimedOut :: string where
  "StateTimedOut = ''TimedOut''"

text \<open>Modelled from the spec: \<^verbatim>\<open>imagerunner.Done\<close> is declared outside the sources at hand;
  the spec has polling end when "the reported status is terminal (Succeeded/Failed --
  backend-decided)". The functions below take the predicate as a parameter; this
  definition instantiates it in the concrete runs.\<close>

definition Done :: "string \<Rightarrow> bool" where
  "Done s = (s = StateSucceeded \<or> s = StateFailed)"

text \<open>The zero value of \<^verbatim>\<open>imagerunner.Runner\<close>.\<close>

definition Runner0 :: Runner where
  "Runner0 = \<lparr>ID = '''', Status = '''', TerminationReason = ''''\<rparr>"

definition Auth0 :: Auth where
  "Auth0 = \<lparr>User = '''', Token = ''''\<rparr>"

subsection \<open>The Job Client and its trace\<close>

datatype call =
    TriggerRun "context" RunnerSpec
  | GetStatus "context" string
  | StopRun "context" string
  | ListArtifacts "context" string
  | DownloadArtifact "context" string string string

fun isTriggerRun :: "call \<Rightarrow> bool" where
  "isTriggerRun (TriggerRun c s) = True"
| "isTriggerRun (GetStatus c i) = False"
| "isTriggerRun (StopRun c i) = False"
| "isTriggerRun (ListArtifacts c i) = False"
| "isTriggerRun (DownloadArtifact c i f d) = False"

fun isStopRun :: "call \<Rightarrow> bool" where
  "isStopRun (TriggerRun c s) = False"
| "isStopRun (GetStatus c i) = False"
| "isStopRun (StopRun c i) = True"
| "isStopRun (ListArtifacts c i) = False"
| "isStopRun (DownloadArtifact c i f d) = False"

fun isDownloadArtifact :: "call \<Rightarrow> bool" where
  "isDownloadArtifact (TriggerRun c s) = False"
| "isDownloadArtifact (GetStatus c i) = False"
| "isDownloadArtifact (StopRun c i) = False"
| "isDownloadArtifact (ListArtifacts c i) = False"
| "isDownloadArtifact (DownloadArtifact c i f d) = True"

text \<open>
  What a call of \<^verbatim>\<open>TriggerRun\<close> or \<^verbatim>\<open>GetStatus\<close> gives back: the runner, the error, and the
  value of \<^verbatim>\<open>ctx.Err()\<close> of the per-attempt context once the call has returned.
\<close>

type_synonym answer = "Runner \<times> error option \<times> ctx_err option"

text \<open>
  The environment one dequeued suite meets:
  \<^item> \<open>rootErr\<close>: \<^verbatim>\<open>r.ctx.Err()\<close> when the worker tests it after the dequeue;
  \<^item> \<open>now_start\<close>, \<open>now_end\<close>, \<open>now_since\<close>: the clock at \<^verbatim>\<open>startTime := time.Now()\<close>,
    at \<^verbatim>\<open>endTime: time.Now()\<close> and inside \<^verbatim>\<open>time.Since(startTime)\<close>;
  \<^item> \<open>readFile\<close>: \<^verbatim>\<open>readFile\<close> of the source (\<^verbatim>\<open>os.ReadFile\<close>, then base64);
  \<^item> \<open>trigger\<close>: the answer of \<^verbatim>\<open>TriggerRun\<close>;
  \<^item> \<open>ticks\<close>: the answers of \<^verbatim>\<open>GetStatus\<close> at the ticks that come before the
    per-attempt context is done, and \<open>doneErr\<close>: the reason it is done then. The
    per-attempt context always has a deadline (\<^verbatim>\<open>context.WithTimeout\<close> with a positive
    timeout), so it is done after finitely many ticks;
  \<^item> \<open>stop\<close>: the answer of \<^verbatim>\<open>StopRun\<close>.
\<close>

record suite_env =
  rootErr :: "ctx_err option"
  now_start :: Time
  now_end :: Time
  now_since :: Time
  readFile :: "string \<Rightarrow> error + string"
  trigger :: answer
  ticks :: "answer list"
  doneErr :: ctx_err
  stop :: "error option"

subsection \<open>orDefault, mapFiles\<close>

text \<open>\<^verbatim>\<open>orDefault(a, b)\<close>: \<open>b\<close> if \<open>a\<close> is the zero value \<open>z\<close> of its type, \<open>a\<close> otherwise.\<close>

definition orDefault :: "'a \<Rightarrow> 'a \<Rightarrow> 'a \<Rightarrow> 'a" where
  "orDefault z a b = (if a = z then b else a)"

fun mapFiles_loop :: "(string \<Rightarrow> error + string) \<Rightarrow> File list \<Rightarrow> FileData list
    \<Rightarrow> FileData list \<times> error option" where
  "mapFiles_loop rf [] items = (items, None)"
| "mapFiles_loop rf (f # fs) items =
     (case rf (Src f) of
        Inl e \<Rightarrow> (items, Some e)
      | Inr d \<Rightarrow> mapFiles_loop rf fs (items @ [\<lparr>Path = Dst f, Data = d\<rparr>]))"

definition mapFiles :: "(string \<Rightarrow> error + string) \<Rightarrow> File list \<Rightarrow> FileData list \<times> error option" where
  "mapFiles rf files = mapFiles_loop rf files []"

subsection \<open>PollRun\<close>

text \<open>
  The \<^verbatim>\<open>select\<close> loop. With no tick left before the context is done, the
  \<^verbatim>\<open>ctx.Done()\<close> case returns the zero runner and \<^verbatim>\<open>ctx.Err()\<close>. At a tick,
  \<^verbatim>\<open>GetStatus\<close> is called; its error, or a status that is done, ends the loop.
  The result: the returned pair, \<^verbatim>\<open>ctx.Err()\<close> at the return, and the calls made.
  \<^verbatim>\<open>lastStatus\<close> only feeds the log.
\<close>

fun PollRun :: "(string \<Rightarrow> bool) \<Rightarrow> context \<Rightarrow> string \<Rightarrow> answer list \<Rightarrow> ctx_err
    \<Rightarrow> (Runner \<times> error option) \<times> ctx_err option \<times> call list" where
  "PollRun isDone ctx rid [] reason =
     ((Runner0, Some (ContextError reason)), Some reason, [])"
| "PollRun isDone ctx rid ((r, e, c) # ts) reason =
     (if e \<noteq> None then ((r, e), c, [GetStatus ctx rid])
      else if isDone (Status r) then ((r, e), c, [GetStatus ctx rid])
      else (case PollRun isDone ctx rid ts reason of
              (res, c', cs) \<Rightarrow> (res, c', GetStatus ctx rid # cs)))"

subsection \<open>runSuite\<close>

definition quote :: char where
  "quote = CHR 0x27"

definition attemptTimeout :: "Suite \<Rightarrow> Duration" where
  "attemptTimeout suite = (if Timeout suite \<le> 0 then 24 * Hour else Timeout suite)"

definition runnerSpec :: "Suite \<Rightarrow> FileData list \<Rightarrow> RunnerSpec" where
  "runnerSpec suite files =
     \<lparr>spec_Container = \<lparr>container_Name = Image suite,
         container_Auth = \<lparr>User = User (ImagePullAuth suite), Token = Token (ImagePullAuth suite)\<rparr>\<rparr>,
      spec_EntryPoint = EntryPoint suite,
      spec_Env = Env suite,
      spec_Files = files,
      spec_Artifacts = Artifacts suite,
      spec_Metadata = [''name'' \<mapsto> Name suite]\<rparr>"

definition failedError :: "Suite \<Rightarrow> Runner \<Rightarrow> error" where
  "failedError suite run =
     (if TerminationReason run \<noteq> ''''
      then Errorf (''suite '' @ [quote] @ Name suite @ [quote] @ '' failed: '' @ TerminationReason run)
      else Errorf (''suite '' @ [quote] @ Name suite @ [quote] @ '' failed''))"

text \<open>
  One attempt. \<^verbatim>\<open>ctx.Err()\<close> is read after \<^verbatim>\<open>TriggerRun\<close> and after \<^verbatim>\<open>PollRun\<close>; of the
  two tests that follow each call, at most one gets past its \<^verbatim>\<open>errors.Is\<close>, so one
  reading each is all the code depends on. The answer of \<^verbatim>\<open>StopRun\<close> is discarded
  (\<^verbatim>\<open>_ = ...\<close>). The result: the returned pair and the calls made.
\<close>

definition runSuite :: "(string \<Rightarrow> bool) \<Rightarrow> suite_env \<Rightarrow> Suite
    \<Rightarrow> (Runner \<times> error option) \<times> call list" where
  "runSuite isDone env suite =
     (case mapFiles (readFile env) (Files suite) of
        (items, Some e) \<Rightarrow> ((Runner0, Some e), [])
      | (files, None) \<Rightarrow>
          (let timeout = attemptTimeout suite;
               ctx = WithTimeout rootCtx timeout;
               submit = TriggerRun ctx (runnerSpec suite files)
           in case trigger env of (runner, e, c) \<Rightarrow>
             if errors_Is e DeadlineExceeded \<and> c \<noteq> None
             then ((Runner0\<lparr>Status := StateCancelled\<rparr>, Some (SuiteTimeoutError timeout)), [submit])
             else if errors_Is e Canceled \<and> c \<noteq> None
             then ((Runner0\<lparr>Status := StateCancelled\<rparr>, Some ErrSuiteCancelled), [submit])
             else if e \<noteq> None then ((Runner0, e), [submit])
             else (case PollRun isDone ctx (ID runner) (ticks env) (doneErr env) of
                ((run, e'), c', cs) \<Rightarrow>
                  if errors_Is e' DeadlineExceeded \<and> c' \<noteq> None
                  then ((run\<lparr>Status := StateCancelled\<rparr>, Some (SuiteTimeoutError timeout)),
                        submit # cs @ [StopRun Background (ID runner)])
                  else if errors_Is e' Canceled \<and> c' \<noteq> None
                  then ((run\<lparr>Status := StateCancelled\<rparr>, Some ErrSuiteCancelled),
                        submit # cs @ [StopRun Background (ID runner)])
                  else if e' \<noteq> None then ((run, e'), submit # cs)
                  else if Status run \<noteq> StateSucceeded
                  then ((run, Some (failedError suite run)), submit # cs)
                  else ((run, e'), submit # cs))))"

subsection \<open>runSuites: the worker\<close>

text \<open>The first part of the loop body: the defaults of the project are applied to the
  dequeued suite.\<close>

definition applyDefaults :: "Suite \<Rightarrow> Suite \<Rightarrow> Suite" where
  "applyDefaults defaults suite =
     suite\<lparr>Name := (if Name defaults \<noteq> '''' then Name defaults @ '' '' @ Name suite else Name suite),
           Image := orDefault '''' (Image suite) (Image defaults),
           ImagePullAuth := orDefault Auth0 (ImagePullAuth suite) (ImagePullAuth defaults),
           EntryPoint := orDefault '''' (EntryPoint suite) (EntryPoint defaults),
           Timeout := orDefault 0 (Timeout suite) (Timeout defaults),
           Files := Files suite @ Files defaults,
           Artifacts := Artifacts suite @ Artifacts defaults,
           Env := Env suite ++ Env defaults\<rparr>"

text \<open>The loop body for one dequeued suite: the result pushed to the result channel and
  the calls made to the Job Client.\<close>

definition runSuites_body :: "(string \<Rightarrow> bool) \<Rightarrow> Suite \<Rightarrow> suite_env \<Rightarrow> Suite
    \<Rightarrow> execResult \<times> call list" where
  "runSuites_body isDone defaults env suite0 =
     (let suite = applyDefaults defaults suite0
      in if rootErr env \<noteq> None
         then (\<lparr>name = Name suite, runID = '''', status = StateCancelled,
                err = Some ErrSuiteCancelled, duration = now_since env - now_start env,
                startTime = now_start env, endTime = now_end env, attempts = 0\<rparr>, [])
         else (case runSuite isDone env suite of
                 ((run, e), cs) \<Rightarrow>
                   (\<lparr>name = Name suite, runID = ID run, status = Status run,
                     err = e, duration = now_since env - now_start env,
                     startTime = now_start env, endTime = now_end env, attempts = 1\<rparr>, cs)))"

text \<open>
  \<^verbatim>\<open>for suite := range suites\<close>: the suites are taken from the channel one after the
  other; \<open>envs n\<close> is the environment the \<open>n\<close>-th dequeued suite meets. The worker never
  sends on the suite channel, so the suites it handles are those the producer sent.
\<close>

fun runSuites :: "(string \<Rightarrow> bool) \<Rightarrow> Suite \<Rightarrow> (nat \<Rightarrow> suite_env) \<Rightarrow> nat \<Rightarrow> Suite list
    \<Rightarrow> (execResult \<times> call list) list" where
  "runSuites isDone defaults envs n [] = []"
| "runSuites isDone defaults envs n (s # q) =
     runSuites_body isDone defaults (envs n) s # runSuites isDone defaults envs (Suc n) q"

subsection \<open>createWorkerPool\<close>

text \<open>
  Go's \<^verbatim>\<open>int\<close> on a 64-bit platform. \<^verbatim>\<open>make(chan T, n)\<close> panics for a negative \<open>n\<close>
  (memory is taken as unbounded). The pool is the two channels and the number of
  \<^verbatim>\<open>go r.runSuites(suites, results)\<close> statements run.
\<close>

type_synonym go_int = "64 word"

datatype panic = MakechanSizeOutOfRange

record 'a chan =
  cap :: nat
  buf :: "'a list"

definition make_chan :: "go_int \<Rightarrow> panic + 'a chan" where
  "make_chan n = (if sint n < 0 then Inl MakechanSizeOutOfRange else Inr \<lparr>cap = unat n, buf = []\<rparr>)"

record pool =
  suites :: "Suite chan"
  results :: "execResult chan"
  workers :: nat

function launch :: "go_int \<Rightarrow> go_int \<Rightarrow> nat" where
  "launch i ccy = (if sint i < sint ccy then Suc (launch (i + 1) ccy) else 0)"
  by pat_completeness auto

text \<open>The loop ends: \<open>i\<close> is below \<open>ccy\<close>, so \<open>i + 1\<close> does not wrap around and the
  distance to \<open>ccy\<close> shrinks.\<close>

termination launch
proof (relation "measure (\<lambda>(i, ccy). nat (sint ccy - sint i))")
  show "wf (measure (\<lambda>(i :: go_int, ccy :: go_int). nat (sint ccy - sint i)))"
    by simp
next
  fix i ccy :: go_int
  assume less: "sint i < sint ccy"
  have hi: "sint ccy < 2 ^ 63"
    using sint_lt [of ccy] by simp
  have lo: "- (2 ^ 63) \<le> sint i"
    using sint_ge [of i] by simp
  have "sint (i + 1) = signed_take_bit 63 (sint i + 1)"
    by (simp add: sint_word_add)
  also have "\<dots> = sint i + 1"
    using hi lo less by (intro signed_take_bit_int_eq_self) auto
  finally have "sint (i + 1) = sint i + 1" .
  with less show "((i + 1, ccy), (i, ccy)) \<in> measure (\<lambda>(i, ccy). nat (sint ccy - sint i))"
    by simp
qed

declare launch.simps [simp del]

definition createWorkerPool :: "go_int \<Rightarrow> go_int \<Rightarrow> panic + pool" where
  "createWorkerPool ccy maxRetries =
     (case make_chan (maxRetries + 1) of
        Inl p \<Rightarrow> Inl p
      | Inr s \<Rightarrow>
          (case make_chan ccy of
             Inl p \<Rightarrow> Inl p
           | Inr r \<Rightarrow> Inr \<lparr>suites = s, results = r, workers = launch 0 ccy\<rparr>))"

subsection \<open>DownloadArtifacts\<close>

text \<open>\<^verbatim>\<open>r.Project.Artifacts.Download\<close>: the patterns to match and the download mode.\<close>

datatype download_when = WhenNever | WhenPass | WhenFail | WhenAlways

record ArtifactDownload =
  Match :: "string list"
  When :: download_when

text \<open>
  The environment the collector meets for one result:
  \<^item> \<open>mkdir\<close>: \<^verbatim>\<open>config.GetSuiteArtifactFolder\<close>, which makes the directory of a suite
    name (declared outside the sources at hand; an effect on the file system);
  \<^item> \<open>listing\<close>: the answer of \<^verbatim>\<open>ListArtifacts\<close>;
  \<^item> \<open>download\<close>: the answer of \<^verbatim>\<open>DownloadArtifact\<close> for a file name.
\<close>

record collect_env =
  mkdir :: "string \<Rightarrow> ArtifactDownload \<Rightarrow> error + string"
  listing :: "string list \<times> error option"
  download :: "string \<Rightarrow> error option"

text \<open>The inner loop over the patterns: the first pattern that matches downloads the
  file and leaves the loop (\<^verbatim>\<open>break\<close>). \<open>glob\<close> is \<^verbatim>\<open>glob.Glob\<close> of the library
  \<^verbatim>\<open>ryanuber/go-glob\<close>.\<close>

fun downloadFirstMatch :: "(string \<Rightarrow> string \<Rightarrow> bool) \<Rightarrow> string list \<Rightarrow> string \<Rightarrow> string
    \<Rightarrow> string \<Rightarrow> call list" where
  "downloadFirstMatch glob [] runnerID f dir = []"
| "downloadFirstMatch glob (pattern # ps) runnerID f dir =
     (if glob pattern f then [DownloadArtifact rootCtx runnerID f dir]
      else downloadFirstMatch glob ps runnerID f dir)"

fun downloadFiles :: "(string \<Rightarrow> string \<Rightarrow> bool) \<Rightarrow> string list \<Rightarrow> string \<Rightarrow> string
    \<Rightarrow> string list \<Rightarrow> call list" where
  "downloadFiles glob ps runnerID dir [] = []"
| "downloadFiles glob ps runnerID dir (f # fs) =
     downloadFirstMatch glob ps runnerID f dir @ downloadFiles glob ps runnerID dir fs"

text \<open>The calls \<^verbatim>\<open>DownloadArtifacts\<close> makes. An error of \<^verbatim>\<open>ListArtifacts\<close> is logged and
  the loop runs over the files returned with it; an error of \<^verbatim>\<open>DownloadArtifact\<close> is
  logged.\<close>

definition DownloadArtifacts :: "(string \<Rightarrow> string \<Rightarrow> bool) \<Rightarrow> ArtifactDownload \<Rightarrow> collect_env
    \<Rightarrow> string \<Rightarrow> string \<Rightarrow> call list" where
  "DownloadArtifacts glob cfg env runnerID suiteName =
     (case mkdir env suiteName cfg of
        Inl e \<Rightarrow> []
      | Inr dir \<Rightarrow>
          ListArtifacts rootCtx runnerID
            # downloadFiles glob (Match cfg) runnerID dir (fst (listing env)))"

subsection \<open>collectResults\<close>

text \<open>Modelled from the spec: \<^verbatim>\<open>config.ShouldDownloadArtifact\<close> is declared outside the
  sources at hand. The spec gives its inputs: "final status is not Cancelled, download is
  enabled in configuration, and optionally overall pass/fail depending on configured
  download mode"; the comment at the call gives the condition
  \<^verbatim>\<open>runID != "" && !cancelled && !timedOut && whatever-the-config-says\<close>.\<close>

definition ShouldDownloadArtifact :: "string \<Rightarrow> bool \<Rightarrow> bool \<Rightarrow> bool \<Rightarrow> ArtifactDownload \<Rightarrow> bool" where
  "ShouldDownloadArtifact jobID passed notCancelled timedOut cfg =
     (jobID \<noteq> '''' \<and> notCancelled \<and> \<not> timedOut \<and>
      (case When cfg of
         WhenNever \<Rightarrow> False
       | WhenPass \<Rightarrow> passed
       | WhenFail \<Rightarrow> \<not> passed
       | WhenAlways \<Rightarrow> True))"

text \<open>The state of the collector: the verdict so far, the counter the progress ticker
  reads, what each reporter has been given, and the calls made.\<close>

record collector =
  passed :: bool
  inProgress :: int
  reporters :: "TestResult list list"
  collector_calls :: "call list"

definition testResult :: "execResult \<Rightarrow> TestResult" where
  "testResult res =
     \<lparr>tr_Name = name res, tr_Duration = duration res, tr_StartTime = startTime res,
      tr_EndTime = endTime res, tr_Status = status res, tr_Attempts = attempts res\<rparr>"

text \<open>The loop body for one received result.\<close>

definition collect_body :: "(string \<Rightarrow> string \<Rightarrow> bool) \<Rightarrow> ArtifactDownload \<Rightarrow> collect_env
    \<Rightarrow> execResult \<Rightarrow> collector \<Rightarrow> collector" where
  "collect_body glob cfg env res st =
     (let passed' = (if err res \<noteq> None then False else passed st);
          cs = (if ShouldDownloadArtifact (runID res) passed' (status res \<noteq> StateCancelled) False cfg
                then DownloadArtifacts glob cfg env (runID res) (name res) else [])
      in \<lparr>passed = passed',
          inProgress = inProgress st - 1,
          reporters = map (\<lambda>r. r @ [testResult res]) (reporters st),
          collector_calls = collector_calls st @ cs\<rparr>)"

text \<open>
  \<^verbatim>\<open>for i := 0; i < expected; i++ { res := <-results ... }\<close>: \<open>k\<close> results are still to
  be received, \<open>i\<close> have been. The channel is the list of the results sent to it, in
  order; a receive from a channel nobody sends to any more blocks for ever, which is
  \<open>None\<close>. The result: the final state and what is left in the channel.
\<close>

fun collect_loop :: "(string \<Rightarrow> string \<Rightarrow> bool) \<Rightarrow> ArtifactDownload \<Rightarrow> (nat \<Rightarrow> collect_env)
    \<Rightarrow> nat \<Rightarrow> nat \<Rightarrow> execResult list \<Rightarrow> collector \<Rightarrow> (collector \<times> execResult list) option" where
  "collect_loop glob cfg cenvs i 0 ch st = Some (st, ch)"
| "collect_loop glob cfg cenvs i (Suc k) [] st = None"
| "collect_loop glob cfg cenvs i (Suc k) (res # ch) st =
     collect_loop glob cfg cenvs (Suc i) k ch (collect_body glob cfg (cenvs i) res st)"

text \<open>\<^verbatim>\<open>collectResults(results, expected)\<close> with \<open>n\<close> reporters; a negative \<^verbatim>\<open>expected\<close>
  runs the loop zero times.\<close>

definition collectResults :: "(string \<Rightarrow> string \<Rightarrow> bool) \<Rightarrow> ArtifactDownload \<Rightarrow> (nat \<Rightarrow> collect_env)
    \<Rightarrow> nat \<Rightarrow> execResult list \<Rightarrow> int \<Rightarrow> (collector \<times> execResult list) option" where
  "collectResults glob cfg cenvs n ch expected =
     collect_loop glob cfg cenvs 0 (nat expected) ch
       \<lparr>passed = True, inProgress = expected, reporters = replicate n [], collector_calls = []\<rparr>"

subsection \<open>RunProject\<close>

record Project =
  Suites :: "Suite list"
  Defaults :: Suite
  Download :: ArtifactDownload

text \<open>What a run of \<^verbatim>\<open>RunProject\<close> leaves: the exit code it returns, the results the
  worker pushed with the calls made for each, and the final state of the collector.\<close>

record run =
  exitCode :: int
  pushed :: "(execResult \<times> call list) list"
  collected :: collector

datatype outcome = Panics panic | Blocks | Returns run

text \<open>
  \<^verbatim>\<open>RunProject\<close> makes the pool with one worker and \<^verbatim>\<open>maxRetries\<close> 0, sends every suite of
  the project to the suite channel, and collects as many results as the project has
  suites. With one worker the results arrive in the order of the suites. The worker and
  the collector run concurrently; each has its own trace of calls.
\<close>

definition RunProject :: "(string \<Rightarrow> bool) \<Rightarrow> (string \<Rightarrow> string \<Rightarrow> bool) \<Rightarrow> nat \<Rightarrow> Project
    \<Rightarrow> (nat \<Rightarrow> suite_env) \<Rightarrow> (nat \<Rightarrow> collect_env) \<Rightarrow> outcome" where
  "RunProject isDone glob n project envs cenvs =
     (case createWorkerPool 1 0 of
        Inl p \<Rightarrow> Panics p
      | Inr pl \<Rightarrow>
          (let rs = runSuites isDone (Defaults project) envs 0 (Suites project)
           in case collectResults glob (Download project) cenvs n (map fst rs)
                     (int (length (Suites project))) of
                None \<Rightarrow> Blocks
              | Some (st, rest) \<Rightarrow>
                  Returns \<lparr>exitCode = (if \<not> passed st then 1 else 0), pushed = rs, collected = st\<rparr>))"

text \<open>The exit code of a run, when \<^verbatim>\<open>RunProject\<close> returns.\<close>

fun exitStatus :: "outcome \<Rightarrow> int option" where
  "exitStatus (Returns r) = Some (exitCode r)"
| "exitStatus (Panics p) = None"
| "exitStatus Blocks = None"

subsection \<open>Concrete suites and environments\<close>

text \<open>The zero suite, a suite \<open>D\<close>, and environments in which every file is read, the
  submission gives the run \<open>run-1\<close>, and the clock stands still.\<close>

definition Suite0 :: Suite where
  "Suite0 = \<lparr>Name = '''', Image = '''', ImagePullAuth = Auth0, EntryPoint = '''', Timeout = 0,
     Files = [], Artifacts = [], Env = Map.empty\<rparr>"

definition suiteD :: Suite where
  "suiteD = Suite0\<lparr>Name := ''D'', Image := ''busybox''\<rparr>"

definition run1 :: "string \<Rightarrow> Runner" where
  "run1 st = \<lparr>ID = ''run-1'', Status = st, TerminationReason = ''''\<rparr>"

definition env0 :: suite_env where
  "env0 = \<lparr>rootErr = None, now_start = 0, now_end = 0, now_since = 0,
     readFile = (\<lambda>p. Inr ''''), trigger = (run1 StateRunning, None, None),
     ticks = [], doneErr = DeadlineExceeded, stop = None\<rparr>"

text \<open>The backend reports Failed, or Succeeded, at the first tick.\<close>

definition envFailed :: suite_env where
  "envFailed = env0\<lparr>ticks := [(run1 StateFailed, None, None)]\<rparr>"

definition envSucceeded :: suite_env where
  "envSucceeded = env0\<lparr>ticks := [(run1 StateSucceeded, None, None)]\<rparr>"

text \<open>The first dequeued suite meets a failing backend, every later one a succeeding
  one.\<close>

definition envsFailThenSucceed :: "nat \<Rightarrow> suite_env" where
  "envsFailThenSucceed n = (if n = 0 then envFailed else envSucceeded)"

text \<open>The deadline of the attempt passes while the run is Running (one tick, then the
  context is done); the root context is cancelled while the run is Running; the deadline
  passes inside \<^verbatim>\<open>TriggerRun\<close>; the root context was cancelled before the dequeue.\<close>

definition envTimeout :: suite_env where
  "envTimeout = env0\<lparr>ticks := [(run1 StateRunning, None, None)], doneErr := DeadlineExceeded\<rparr>"

definition envInterrupt :: suite_env where
  "envInterrupt = env0\<lparr>ticks := [(run1 StateRunning, None, None)], doneErr := Canceled\<rparr>"

definition envSubmitTimeout :: suite_env where
  "envSubmitTimeout =
     env0\<lparr>trigger := (Runner0, Some (Wrapped ''Post /runners'' (ContextError DeadlineExceeded)),
                      Some DeadlineExceeded)\<rparr>"

definition envCancelled :: suite_env where
  "envCancelled = env0\<lparr>rootErr := Some Canceled\<rparr>"

text \<open>The backend reports Failed and gives a reason.\<close>

definition envFailedReason :: suite_env where
  "envFailedReason =
     env0\<lparr>ticks := [(\<lparr>ID = ''run-1'', Status = StateFailed, TerminationReason = ''OOMKilled''\<rparr>,
                     None, None)]\<rparr>"

text \<open>For the collector: a stand-in for \<^verbatim>\<open>glob.Glob\<close> (the pattern \<open>*\<close> matches every
  name, any other pattern matches itself), a configuration, and an environment in which
  the directory is made and the run has two files.\<close>

definition globSimple :: "string \<Rightarrow> string \<Rightarrow> bool" where
  "globSimple pattern f = (pattern = ''*'' \<or> pattern = f)"

definition downloadTxt :: ArtifactDownload where
  "downloadTxt = \<lparr>Match = [''log.txt'', ''log.txt''], When = WhenAlways\<rparr>"

definition cenv0 :: collect_env where
  "cenv0 = \<lparr>mkdir = (\<lambda>suiteName cfg. Inr (''artifacts/'' @ suiteName)),
     listing = ([''log.txt'', ''junit.xml''], None),
     download = (\<lambda>f. None)\<rparr>"

definition cenvNoDir :: collect_env where
  "cenvNoDir = cenv0\<lparr>mkdir := (\<lambda>suiteName cfg. Inl (Other ''permission denied''))\<rparr>"

definition projectD :: Project where
  "projectD = \<lparr>Suites = [suiteD, suiteD], Defaults = Suite0, Download = downloadTxt\<rparr>"

section \<open>Properties\<close>

subsection \<open>Facts shared by the proofs\<close>

lemmas concrete_defs = Suite0_def suiteD_def run1_def env0_def envFailed_def envSucceeded_def
  envsFailThenSucceed_def envTimeout_def envInterrupt_def envSubmitTimeout_def envCancelled_def
  envFailedReason_def
  Auth0_def Runner0_def StateSucceeded_def StateCancelled_def StateFailed_def StateRunning_def
  StateTimedOut_def Done_def quote_def Hour_def rootCtx_def

lemmas worker_defs = runSuites_body_def runSuite_def applyDefaults_def orDefault_def mapFiles_def
  attemptTimeout_def runnerSpec_def failedError_def errors_Is_def Let_def

lemma unwraps_to_unique: "unwraps_to e a \<Longrightarrow> unwraps_to e b \<Longrightarrow> a = b"
  by (induction e) auto

lemma errors_Is_unique: "errors_Is e a \<Longrightarrow> errors_Is e b \<Longrightarrow> a = b"
  by (auto simp: errors_Is_def dest: unwraps_to_unique split: option.splits)

lemma errors_Is_None [simp]: "\<not> errors_Is None k"
  by (simp add: errors_Is_def)

lemma PollRun_no_StopRun:
  "filter isStopRun (snd (snd (PollRun isDone ctx rid ts reason))) = []"
  by (induction ts) (auto split: if_splits prod.splits)

lemma PollRun_no_TriggerRun:
  "filter isTriggerRun (snd (snd (PollRun isDone ctx rid ts reason))) = []"
  by (induction ts) (auto split: if_splits prod.splits)

lemma PollRun_nil_done:
  "PollRun isDone ctx rid ts reason = ((run, None), c, cs) \<Longrightarrow> isDone (Status run)"
  by (induction ts arbitrary: cs) (auto split: if_splits prod.splits)

text \<open>The three ways through \<^verbatim>\<open>runSuite\<close>: a file cannot be read, the submission
  fails, the run is polled.\<close>

lemma runSuite_unreadable:
  assumes "mapFiles (readFile env) (Files suite) = (items, Some e)"
  shows "runSuite isDone env suite = ((Runner0, Some e), [])"
  using assms by (simp add: runSuite_def)

lemma runSuite_submit_failed:
  assumes "mapFiles (readFile env) (Files suite) = (files, None)"
    and "trigger env = (runner, e, c)" and "e \<noteq> None"
  shows "runSuite isDone env suite =
    ((if errors_Is e DeadlineExceeded \<and> c \<noteq> None
        then (Runner0\<lparr>Status := StateCancelled\<rparr>, Some (SuiteTimeoutError (attemptTimeout suite)))
      else if errors_Is e Canceled \<and> c \<noteq> None
        then (Runner0\<lparr>Status := StateCancelled\<rparr>, Some ErrSuiteCancelled)
      else (Runner0, e)),
     [TriggerRun (WithTimeout rootCtx (attemptTimeout suite)) (runnerSpec suite files)])"
  using assms by (cases c; cases e) (simp_all add: runSuite_def Let_def)

lemma runSuite_polled:
  assumes "mapFiles (readFile env) (Files suite) = (files, None)"
    and "trigger env = (runner, None, c)"
    and "PollRun isDone (WithTimeout rootCtx (attemptTimeout suite)) (ID runner) (ticks env) (doneErr env)
          = ((run, e'), c', cs)"
  shows "runSuite isDone env suite =
    (if errors_Is e' DeadlineExceeded \<and> c' \<noteq> None
       then ((run\<lparr>Status := StateCancelled\<rparr>, Some (SuiteTimeoutError (attemptTimeout suite))),
             TriggerRun (WithTimeout rootCtx (attemptTimeout suite)) (runnerSpec suite files)
               # cs @ [StopRun Background (ID runner)])
     else if errors_Is e' Canceled \<and> c' \<noteq> None
       then ((run\<lparr>Status := StateCancelled\<rparr>, Some ErrSuiteCancelled),
             TriggerRun (WithTimeout rootCtx (attemptTimeout suite)) (runnerSpec suite files)
               # cs @ [StopRun Background (ID runner)])
     else if e' \<noteq> None
       then ((run, e'), TriggerRun (WithTimeout rootCtx (attemptTimeout suite)) (runnerSpec suite files) # cs)
     else if Status run \<noteq> StateSucceeded
       then ((run, Some (failedError suite run)),
             TriggerRun (WithTimeout rootCtx (attemptTimeout suite)) (runnerSpec suite files) # cs)
     else ((run, None), TriggerRun (WithTimeout rootCtx (attemptTimeout suite)) (runnerSpec suite files) # cs))"
  using assms by (cases c'; cases e') (simp_all add: runSuite_def Let_def)

lemma runSuite_triggers:
  "length (filter isTriggerRun (snd (runSuite isDone env suite))) \<le> 1"
proof -
  obtain fs me where mf: "mapFiles (readFile env) (Files suite) = (fs, me)"
    by (cases "mapFiles (readFile env) (Files suite)")
  obtain runner e c where tr: "trigger env = (runner, e, c)"
    by (cases "trigger env")
  obtain run e' c' cs where pr:
    "PollRun isDone (WithTimeout rootCtx (attemptTimeout suite)) (ID runner) (ticks env) (doneErr env)
      = ((run, e'), c', cs)"
    by (metis prod.exhaust)
  have none: "filter isTriggerRun cs = []"
    using PollRun_no_TriggerRun [of isDone "WithTimeout rootCtx (attemptTimeout suite)" "ID runner"
        "ticks env" "doneErr env"] pr by simp
  show ?thesis
  proof (cases me)
    case (Some e0)
    with mf show ?thesis
      by (simp add: runSuite_unreadable)
  next
    case None
    note mf' = mf [unfolded None]
    show ?thesis
    proof (cases e)
      case (Some e1)
      with tr have "trigger env = (runner, e, c)" and "e \<noteq> None"
        by simp_all
      then show ?thesis
        by (simp add: runSuite_submit_failed [OF mf'])
    next
      case None
      with tr have "trigger env = (runner, None, c)"
        by simp
      then show ?thesis
        using none by (simp add: runSuite_polled [OF mf' _ pr])
    qed
  qed
qed

text \<open>The worker: one result for each suite taken from the channel, in order.\<close>

lemma runSuites_length: "length (runSuites isDone defaults envs n q) = length q"
  by (induction q arbitrary: n) auto

lemma runSuites_nth:
  "i < length q \<Longrightarrow>
   runSuites isDone defaults envs n q ! i = runSuites_body isDone defaults (envs (n + i)) (q ! i)"
proof (induction q arbitrary: n i)
  case Nil
  then show ?case by simp
next
  case (Cons s q)
  then show ?case by (cases i) auto
qed

lemma runSuites_append:
  "runSuites isDone defaults envs n (q1 @ q2) =
   runSuites isDone defaults envs n q1 @ runSuites isDone defaults envs (n + length q1) q2"
  by (induction q1 arbitrary: n) auto

lemma body_attempts:
  "attempts (fst (runSuites_body isDone defaults env suite)) = (if rootErr env = None then 1 else 0)"
  by (simp add: runSuites_body_def Let_def split: prod.splits)

lemma body_triggers:
  "length (filter isTriggerRun (snd (runSuites_body isDone defaults env suite))) \<le> 1"
  using runSuite_triggers [of isDone env "applyDefaults defaults suite"]
  by (auto simp add: runSuites_body_def Let_def split: prod.splits)

lemma body_not_cancelled:
  "rootErr env = None \<Longrightarrow>
   runSuites_body isDone defaults env suite =
     (case runSuite isDone env (applyDefaults defaults suite) of
        ((run, e), cs) \<Rightarrow>
          (\<lparr>name = Name (applyDefaults defaults suite), runID = ID run, status = Status run, err = e,
            duration = now_since env - now_start env, startTime = now_start env,
            endTime = now_end env, attempts = 1\<rparr>, cs))"
  by (simp add: runSuites_body_def Let_def)

lemma body_cancelled:
  "rootErr env \<noteq> None \<Longrightarrow>
   runSuites_body isDone defaults env suite =
     (\<lparr>name = Name (applyDefaults defaults suite), runID = '''', status = StateCancelled,
       err = Some ErrSuiteCancelled, duration = now_since env - now_start env,
       startTime = now_start env, endTime = now_end env, attempts = 0\<rparr>, [])"
  by (simp add: runSuites_body_def Let_def)

text \<open>The pool: no capacity is negative, or \<^verbatim>\<open>make\<close> panics.\<close>

lemma sint_succ:
  assumes "sint (i :: go_int) < sint (c :: go_int)"
  shows "sint (i + 1) = sint i + 1"
proof -
  have hi: "sint c < 2 ^ 63"
    using sint_lt [of c] by simp
  have lo: "- (2 ^ 63) \<le> sint i"
    using sint_ge [of i] by simp
  have "sint (i + 1) = signed_take_bit 63 (sint i + 1)"
    by (simp add: sint_word_add)
  also have "\<dots> = sint i + 1"
    using hi lo assms by (intro signed_take_bit_int_eq_self) auto
  finally show ?thesis .
qed

lemma launch_count: "launch i ccy = nat (sint ccy - sint i)"
proof (induction i ccy rule: launch.induct)
  case (1 i ccy)
  show ?case
  proof (cases "sint i < sint ccy")
    case True
    with 1 have "launch (i + 1) ccy = nat (sint ccy - sint (i + 1))"
      by simp
    with True show ?thesis
      by (subst launch.simps) (simp add: sint_succ)
  next
    case False
    then show ?thesis
      by (subst launch.simps) simp
  qed
qed

lemma sint_nonneg_unat:
  assumes "0 \<le> sint (w :: go_int)"
  shows "nat (sint w) = unat w"
proof -
  have "sint w < 2 ^ 63"
    using sint_lt [of w] by simp
  then have "sint w < 2 ^ 64"
    by simp
  with assms have "take_bit 64 (sint w) = sint w"
    by (intro take_bit_int_eq_self) auto
  then have "sint w = uint w"
    by (simp add: uint_sint)
  then show ?thesis
    by simp
qed

lemma createWorkerPool_ok:
  assumes "0 \<le> sint ccy" and "0 \<le> sint (maxRetries + 1)"
  shows "createWorkerPool ccy maxRetries =
    Inr \<lparr>suites = \<lparr>cap = unat (maxRetries + 1), buf = []\<rparr>,
         results = \<lparr>cap = unat ccy, buf = []\<rparr>, workers = unat ccy\<rparr>"
  using assms by (simp add: createWorkerPool_def make_chan_def launch_count sint_nonneg_unat)

lemma createWorkerPool_panics:
  assumes "sint ccy < 0 \<or> sint (maxRetries + 1) < 0"
  shows "createWorkerPool ccy maxRetries = Inl MakechanSizeOutOfRange"
  using assms by (auto simp add: createWorkerPool_def make_chan_def)

text \<open>The concrete environments.\<close>

lemma rootErr_envsFailThenSucceed: "rootErr (envsFailThenSucceed k) = None"
  by (simp add: envsFailThenSucceed_def envFailed_def envSucceeded_def env0_def)

subsection \<open>Retries (C1)\<close>

text \<open>
  C1, as the spec states it, has a suite that fails resubmitted while its attempts are
  below \<open>maxRetries + 1\<close>. The worker never does so: \<^verbatim>\<open>maxRetries\<close> only sizes the suite
  channel. In a pool made with \<^verbatim>\<open>maxRetries\<close> 1, the suite \<open>D\<close>, whose first attempt the
  backend fails and whose second attempt it would let succeed, gives one result, Failed
  with one attempt, after a single submission.
\<close>

theorem retry_counterexample:
  "createWorkerPool 1 1 =
     Inr \<lparr>suites = \<lparr>cap = 2, buf = []\<rparr>, results = \<lparr>cap = 1, buf = []\<rparr>, workers = 1\<rparr>
   \<and> map fst (runSuites Done Suite0 envsFailThenSucceed 0 [suiteD]) =
       [\<lparr>name = ''D'', runID = ''run-1'', status = StateFailed,
         err = Some (Errorf (''suite '' @ [quote] @ ''D'' @ [quote] @ '' failed'')),
         duration = 0, startTime = 0, endTime = 0, attempts = 1\<rparr>]
   \<and> map (length \<circ> filter isTriggerRun \<circ> snd)
         (runSuites Done Suite0 envsFailThenSucceed 0 [suiteD]) = [1]"
proof -
  have "createWorkerPool 1 1 =
     Inr \<lparr>suites = \<lparr>cap = 2, buf = []\<rparr>, results = \<lparr>cap = 1, buf = []\<rparr>, workers = 1\<rparr>"
    using createWorkerPool_ok [of 1 1] by simp
  moreover have "runSuites Done Suite0 envsFailThenSucceed 0 [suiteD] =
    [(\<lparr>name = ''D'', runID = ''run-1'', status = StateFailed,
         err = Some (Errorf (''suite '' @ [quote] @ ''D'' @ [quote] @ '' failed'')),
         duration = 0, startTime = 0, endTime = 0, attempts = 1\<rparr>,
      [TriggerRun (WithTimeout rootCtx (24 * Hour)) (runnerSpec suiteD []),
       GetStatus (WithTimeout rootCtx (24 * Hour)) ''run-1''])]"
    by (simp add: worker_defs concrete_defs)
  ultimately show ?thesis
    by simp
qed

text \<open>
  C1, amended: no suite is resubmitted. The worker pushes one result for each suite it
  takes from the channel, in order; the result comes from the loop body run once on that
  suite, so it has at most one submission (\<^verbatim>\<open>TriggerRun\<close>) behind it, its attempts are 1
  (0 when the suite was skipped because the root context was cancelled), and its status
  and error are those of that one attempt.
\<close>

theorem runSuites_no_retry:
  "length (runSuites isDone defaults envs n q) = length q \<and>
   (\<forall>i < length q.
      runSuites isDone defaults envs n q ! i =
        runSuites_body isDone defaults (envs (n + i)) (q ! i) \<and>
      attempts (fst (runSuites isDone defaults envs n q ! i)) =
        (if rootErr (envs (n + i)) = None then 1 else 0) \<and>
      length (filter isTriggerRun (snd (runSuites isDone defaults envs n q ! i))) \<le> 1 \<and>
      (rootErr (envs (n + i)) = None \<longrightarrow>
         status (fst (runSuites isDone defaults envs n q ! i)) =
           Status (fst (fst (runSuite isDone (envs (n + i)) (applyDefaults defaults (q ! i))))) \<and>
         err (fst (runSuites isDone defaults envs n q ! i)) =
           snd (fst (runSuite isDone (envs (n + i)) (applyDefaults defaults (q ! i))))))"
proof (intro conjI allI impI)
  show "length (runSuites isDone defaults envs n q) = length q"
    by (rule runSuites_length)
next
  fix i assume "i < length q"
  then show "runSuites isDone defaults envs n q ! i =
        runSuites_body isDone defaults (envs (n + i)) (q ! i)"
    by (rule runSuites_nth)
next
  fix i assume "i < length q"
  then show "attempts (fst (runSuites isDone defaults envs n q ! i)) =
        (if rootErr (envs (n + i)) = None then 1 else 0)"
    by (simp only: runSuites_nth body_attempts)
next
  fix i assume "i < length q"
  then show "length (filter isTriggerRun (snd (runSuites isDone defaults envs n q ! i))) \<le> 1"
    by (simp only: runSuites_nth body_triggers)
next
  fix i assume "i < length q" and "rootErr (envs (n + i)) = None"
  then show "status (fst (runSuites isDone defaults envs n q ! i)) =
           Status (fst (fst (runSuite isDone (envs (n + i)) (applyDefaults defaults (q ! i)))))"
    by (simp add: runSuites_nth body_not_cancelled split: prod.splits)
next
  fix i assume "i < length q" and "rootErr (envs (n + i)) = None"
  then show "err (fst (runSuites isDone defaults envs n q ! i)) =
           snd (fst (runSuite isDone (envs (n + i)) (applyDefaults defaults (q ! i))))"
    by (simp add: runSuites_nth body_not_cancelled split: prod.splits)
qed

theorem runSuites_no_retry_witness:
  "(0 :: nat) < length [suiteD] \<and>
   length (runSuites Done Suite0 envsFailThenSucceed 0 [suiteD]) = 1 \<and>
   attempts (fst (runSuites Done Suite0 envsFailThenSucceed 0 [suiteD] ! 0)) = 1"
proof -
  note inst = runSuites_no_retry [of Done Suite0 envsFailThenSucceed 0 "[suiteD]"]
  have i: "(0 :: nat) < length [suiteD]"
    by simp
  have "length (runSuites Done Suite0 envsFailThenSucceed 0 [suiteD]) = length [suiteD]"
    using inst by (rule conjunct1)
  then have len: "length (runSuites Done Suite0 envsFailThenSucceed 0 [suiteD]) = 1"
    by simp
  have "attempts (fst (runSuites Done Suite0 envsFailThenSucceed 0 [suiteD] ! 0)) =
      (if rootErr (envsFailThenSucceed (0 + 0)) = None then 1 else 0)"
    using inst [THEN conjunct2, rule_format, OF i] by (elim conjE)
  then have "attempts (fst (runSuites Done Suite0 envsFailThenSucceed 0 [suiteD] ! 0)) = 1"
    by (simp add: rootErr_envsFailThenSucceed)
  with len i show ?thesis
    by (intro conjI)
qed

subsection \<open>Cancellation before the dequeue (C2)\<close>

text \<open>
  C2: a suite that the worker takes from the channel when the shared context is already
  cancelled (\<^verbatim>\<open>r.ctx.Err() != nil\<close>) is not submitted: no call at all is made to the Job
  Client for it, and the result pushed has the status Cancelled and the error
  \<^verbatim>\<open>ErrSuiteCancelled\<close>.
\<close>

theorem cancelled_suite_not_submitted:
  assumes "i < length q" and "rootErr (envs (n + i)) \<noteq> None"
  shows "snd (runSuites isDone defaults envs n q ! i) = [] \<and>
         status (fst (runSuites isDone defaults envs n q ! i)) = StateCancelled \<and>
         err (fst (runSuites isDone defaults envs n q ! i)) = Some ErrSuiteCancelled"
  using assms by (simp add: runSuites_nth body_cancelled)

theorem cancelled_suite_not_submitted_witness:
  "(1 :: nat) < length [suiteD, suiteD] \<and> rootErr envCancelled \<noteq> None \<and>
   snd (runSuites Done Suite0 (\<lambda>k. envCancelled) 0 [suiteD, suiteD] ! 1) = [] \<and>
   status (fst (runSuites Done Suite0 (\<lambda>k. envCancelled) 0 [suiteD, suiteD] ! 1)) = StateCancelled \<and>
   err (fst (runSuites Done Suite0 (\<lambda>k. envCancelled) 0 [suiteD, suiteD] ! 1))
     = Some ErrSuiteCancelled"
proof -
  have i: "(1 :: nat) < length [suiteD, suiteD]"
    by simp
  have c: "rootErr ((\<lambda>k. envCancelled) (0 + (1 :: nat))) \<noteq> None"
    by (simp add: envCancelled_def env0_def)
  then have c': "rootErr envCancelled \<noteq> None"
    by simp
  from cancelled_suite_not_submitted [of 1 "[suiteD, suiteD]" "\<lambda>k. envCancelled" 0 Done Suite0, OF i c]
    i c' show ?thesis
    by (intro conjI) simp_all
qed

subsection \<open>Attempts in the result (C10)\<close>

text \<open>
  C10: the result of a suite skipped because the root context was cancelled at the
  dequeue has attempts 0 and an empty run id; every other result has attempts 1, in
  particular every result with a submission (\<^verbatim>\<open>TriggerRun\<close>) behind it.
\<close>

theorem attempts_of_result:
  "(rootErr env \<noteq> None \<longrightarrow>
      attempts (fst (runSuites_body isDone defaults env suite)) = 0 \<and>
      runID (fst (runSuites_body isDone defaults env suite)) = '''') \<and>
   (rootErr env = None \<longrightarrow> attempts (fst (runSuites_body isDone defaults env suite)) = 1) \<and>
   (filter isTriggerRun (snd (runSuites_body isDone defaults env suite)) \<noteq> [] \<longrightarrow>
      attempts (fst (runSuites_body isDone defaults env suite)) = 1)"
proof (intro conjI impI)
  assume "rootErr env \<noteq> None"
  then show "attempts (fst (runSuites_body isDone defaults env suite)) = 0"
    by (simp add: body_cancelled)
next
  assume "rootErr env \<noteq> None"
  then show "runID (fst (runSuites_body isDone defaults env suite)) = ''''"
    by (simp add: body_cancelled)
next
  assume "rootErr env = None"
  then show "attempts (fst (runSuites_body isDone defaults env suite)) = 1"
    by (simp add: body_attempts)
next
  assume sub: "filter isTriggerRun (snd (runSuites_body isDone defaults env suite)) \<noteq> []"
  have "rootErr env = None"
  proof (rule ccontr)
    assume "rootErr env \<noteq> None"
    then have "snd (runSuites_body isDone defaults env suite) = []"
      by (simp add: body_cancelled)
    with sub show False
      by simp
  qed
  then show "attempts (fst (runSuites_body isDone defaults env suite)) = 1"
    by (simp add: body_attempts)
qed

theorem attempts_of_result_witness:
  "rootErr envCancelled \<noteq> None \<and>
   attempts (fst (runSuites_body Done Suite0 envCancelled suiteD)) = 0 \<and>
   runID (fst (runSuites_body Done Suite0 envCancelled suiteD)) = '''' \<and>
   rootErr envFailed = None \<and>
   filter isTriggerRun (snd (runSuites_body Done Suite0 envFailed suiteD)) \<noteq> [] \<and>
   attempts (fst (runSuites_body Done Suite0 envFailed suiteD)) = 1"
proof -
  have c: "rootErr envCancelled \<noteq> None"
    by (simp add: envCancelled_def env0_def)
  have f: "rootErr envFailed = None"
    by (simp add: envFailed_def env0_def)
  have t: "filter isTriggerRun (snd (runSuites_body Done Suite0 envFailed suiteD)) \<noteq> []"
    by (simp add: worker_defs concrete_defs)
  from attempts_of_result [of envCancelled Done Suite0 suiteD] c
  have "attempts (fst (runSuites_body Done Suite0 envCancelled suiteD)) = 0"
    and "runID (fst (runSuites_body Done Suite0 envCancelled suiteD)) = ''''"
    by blast+
  moreover from attempts_of_result [of envFailed Done Suite0 suiteD] t
  have "attempts (fst (runSuites_body Done Suite0 envFailed suiteD)) = 1"
    by blast
  ultimately show ?thesis
    using c f t by (intro conjI)
qed

subsection \<open>Deadline or cancellation while the run is polled (C3)\<close>

text \<open>
  C3, as the spec states it, has the attempt end with the status TimedOut when the
  deadline passes and Cancelled when the root context is cancelled. The code sets the
  status Cancelled in both cases; the error tells them apart. For the suite \<open>D\<close> the
  deadline passes while the run is Running: the status is Cancelled, the same as after an
  interrupt, and not TimedOut.
\<close>

theorem timeout_status_counterexample:
  "Status (fst (fst (runSuite Done envTimeout suiteD))) = StateCancelled \<and>
   Status (fst (fst (runSuite Done envTimeout suiteD))) \<noteq> StateTimedOut \<and>
   Status (fst (fst (runSuite Done envInterrupt suiteD))) = StateCancelled \<and>
   snd (fst (runSuite Done envTimeout suiteD)) = Some (SuiteTimeoutError (24 * Hour))"
  by (simp add: worker_defs concrete_defs)

text \<open>
  C3, amended: when \<^verbatim>\<open>PollRun\<close> returns an error that is the deadline's (or the
  cancellation's) and the per-attempt context is done, the controller calls \<^verbatim>\<open>StopRun\<close>
  once, as its last call, with \<^verbatim>\<open>context.Background()\<close>, which is derived neither from
  the per-attempt context nor from the root context; whatever \<^verbatim>\<open>StopRun\<close> answers (\<open>s\<close>),
  the attempt ends with the status Cancelled and the error \<^verbatim>\<open>SuiteTimeoutError\<close> (for
  the deadline) or \<^verbatim>\<open>ErrSuiteCancelled\<close> (for the cancellation).
\<close>

theorem stop_on_expiry:
  assumes "mapFiles (readFile env) (Files suite) = (files, None)"
    and "trigger env = (runner, None, c)"
    and "PollRun isDone (WithTimeout rootCtx (attemptTimeout suite)) (ID runner) (ticks env) (doneErr env)
          = ((run, e'), c', cs)"
    and "errors_Is e' k" and "c' \<noteq> None"
  shows "runSuite isDone (env\<lparr>stop := s\<rparr>) suite =
      ((run\<lparr>Status := StateCancelled\<rparr>,
        Some (case k of DeadlineExceeded \<Rightarrow> SuiteTimeoutError (attemptTimeout suite)
                      | Canceled \<Rightarrow> ErrSuiteCancelled)),
       TriggerRun (WithTimeout rootCtx (attemptTimeout suite)) (runnerSpec suite files)
         # cs @ [StopRun Background (ID runner)])
     \<and> \<not> derived_from Background (WithTimeout rootCtx (attemptTimeout suite))
     \<and> \<not> derived_from Background rootCtx"
proof -
  have mf: "mapFiles (readFile (env\<lparr>stop := s\<rparr>)) (Files suite) = (files, None)"
    using assms(1) by simp
  have tr: "trigger (env\<lparr>stop := s\<rparr>) = (runner, None, c)"
    using assms(2) by simp
  have pr: "PollRun isDone (WithTimeout rootCtx (attemptTimeout suite)) (ID runner)
      (ticks (env\<lparr>stop := s\<rparr>)) (doneErr (env\<lparr>stop := s\<rparr>)) = ((run, e'), c', cs)"
    using assms(3) by simp
  note polled = runSuite_polled [OF mf tr pr]
  have "runSuite isDone (env\<lparr>stop := s\<rparr>) suite =
      ((run\<lparr>Status := StateCancelled\<rparr>,
        Some (case k of DeadlineExceeded \<Rightarrow> SuiteTimeoutError (attemptTimeout suite)
                      | Canceled \<Rightarrow> ErrSuiteCancelled)),
       TriggerRun (WithTimeout rootCtx (attemptTimeout suite)) (runnerSpec suite files)
         # cs @ [StopRun Background (ID runner)])"
  proof (cases k)
    case DeadlineExceeded
    with assms(4,5) show ?thesis
      by (simp add: polled)
  next
    case Canceled
    with assms(4) have "\<not> errors_Is e' DeadlineExceeded"
      using errors_Is_unique by blast
    with Canceled assms(4,5) show ?thesis
      by (simp add: polled)
  qed
  then show ?thesis
    by (simp add: rootCtx_def)
qed

lemma PollRun_envTimeout:
  "PollRun Done (WithTimeout rootCtx (attemptTimeout suiteD)) (ID (run1 StateRunning))
     (ticks envTimeout) (doneErr envTimeout) =
   ((Runner0, Some (ContextError DeadlineExceeded)), Some DeadlineExceeded,
    [GetStatus (WithTimeout rootCtx (attemptTimeout suiteD)) (ID (run1 StateRunning))])"
  by (simp add: envTimeout_def env0_def run1_def Done_def StateRunning_def StateSucceeded_def
      StateFailed_def)

theorem stop_on_expiry_witness:
  "mapFiles (readFile envTimeout) (Files suiteD) = ([], None) \<and>
   trigger envTimeout = (run1 StateRunning, None, None) \<and>
   errors_Is (Some (ContextError DeadlineExceeded)) DeadlineExceeded \<and>
   Some DeadlineExceeded \<noteq> (None :: ctx_err option) \<and>
   runSuite Done (envTimeout\<lparr>stop := Some (Other ''stop failed'')\<rparr>) suiteD =
     ((Runner0\<lparr>Status := StateCancelled\<rparr>, Some (SuiteTimeoutError (attemptTimeout suiteD))),
      [TriggerRun (WithTimeout rootCtx (attemptTimeout suiteD)) (runnerSpec suiteD []),
       GetStatus (WithTimeout rootCtx (attemptTimeout suiteD)) (ID (run1 StateRunning)),
       StopRun Background (ID (run1 StateRunning))])"
proof -
  have mf: "mapFiles (readFile envTimeout) (Files suiteD) = ([], None)"
    by (simp add: mapFiles_def suiteD_def Suite0_def)
  have tr: "trigger envTimeout = (run1 StateRunning, None, None)"
    by (simp add: envTimeout_def env0_def)
  have dl: "errors_Is (Some (ContextError DeadlineExceeded)) DeadlineExceeded"
    by (simp add: errors_Is_def)
  have c: "Some DeadlineExceeded \<noteq> (None :: ctx_err option)"
    by simp
  from stop_on_expiry [OF mf tr PollRun_envTimeout dl c, of "Some (Other ''stop failed'')"]
  have "runSuite Done (envTimeout\<lparr>stop := Some (Other ''stop failed'')\<rparr>) suiteD =
     ((Runner0\<lparr>Status := StateCancelled\<rparr>, Some (SuiteTimeoutError (attemptTimeout suiteD))),
      [TriggerRun (WithTimeout rootCtx (attemptTimeout suiteD)) (runnerSpec suiteD []),
       GetStatus (WithTimeout rootCtx (attemptTimeout suiteD)) (ID (run1 StateRunning)),
       StopRun Background (ID (run1 StateRunning))])"
    by simp
  with mf tr dl c show ?thesis
    by (intro conjI)
qed

subsection \<open>Stop calls at a timeout (C4)\<close>

text \<open>
  C4, as the spec states it, has exactly one stop call for every attempt that ends by
  timeout, the timeout during the submission included. When the deadline passes inside
  \<^verbatim>\<open>TriggerRun\<close> the attempt ends with \<^verbatim>\<open>SuiteTimeoutError\<close> and no stop call is made:
  there is no run id to stop.
\<close>

theorem submit_timeout_counterexample:
  "snd (fst (runSuite Done envSubmitTimeout suiteD)) = Some (SuiteTimeoutError (24 * Hour)) \<and>
   filter isStopRun (snd (runSuite Done envSubmitTimeout suiteD)) = [] \<and>
   length (filter isStopRun (snd (runSuite Done envSubmitTimeout suiteD))) \<noteq> 1"
  by (simp add: worker_defs concrete_defs)

text \<open>
  C4, amended: an attempt that ends by timeout while the run is polled, after a
  submission that succeeded, makes exactly one stop call, as its last call, before it
  ends with \<^verbatim>\<open>SuiteTimeoutError\<close> and the status Cancelled; an attempt whose timeout
  comes during the submission itself makes no stop call and ends the same way.
\<close>

theorem stop_calls_on_timeout:
  assumes "mapFiles (readFile env) (Files suite) = (files, None)"
    and "trigger env = (runner, e, c)"
    and "PollRun isDone (WithTimeout rootCtx (attemptTimeout suite)) (ID runner) (ticks env) (doneErr env)
          = ((run, e'), c', cs)"
  shows "(errors_Is e DeadlineExceeded \<and> c \<noteq> None \<longrightarrow>
            fst (runSuite isDone env suite) =
              (Runner0\<lparr>Status := StateCancelled\<rparr>, Some (SuiteTimeoutError (attemptTimeout suite))) \<and>
            filter isStopRun (snd (runSuite isDone env suite)) = []) \<and>
         (e = None \<and> errors_Is e' DeadlineExceeded \<and> c' \<noteq> None \<longrightarrow>
            fst (runSuite isDone env suite) =
              (run\<lparr>Status := StateCancelled\<rparr>, Some (SuiteTimeoutError (attemptTimeout suite))) \<and>
            filter isStopRun (snd (runSuite isDone env suite)) = [StopRun Background (ID runner)] \<and>
            last (snd (runSuite isDone env suite)) = StopRun Background (ID runner))"
proof (intro conjI impI)
  assume a: "errors_Is e DeadlineExceeded \<and> c \<noteq> None"
  then have "e \<noteq> None"
    by (cases e) simp_all
  note failed = runSuite_submit_failed [OF assms(1) assms(2) this]
  from a show "fst (runSuite isDone env suite) =
      (Runner0\<lparr>Status := StateCancelled\<rparr>, Some (SuiteTimeoutError (attemptTimeout suite)))"
    by (simp add: failed)
  from a show "filter isStopRun (snd (runSuite isDone env suite)) = []"
    by (simp add: failed)
next
  assume a: "e = None \<and> errors_Is e' DeadlineExceeded \<and> c' \<noteq> None"
  then have tr: "trigger env = (runner, None, c)"
    using assms(2) by simp
  note polled = runSuite_polled [OF assms(1) tr assms(3)]
  have none: "filter isStopRun cs = []"
    using PollRun_no_StopRun [of isDone "WithTimeout rootCtx (attemptTimeout suite)" "ID runner"
        "ticks env" "doneErr env"] assms(3) by simp
  from a show "fst (runSuite isDone env suite) =
      (run\<lparr>Status := StateCancelled\<rparr>, Some (SuiteTimeoutError (attemptTimeout suite)))"
    by (simp add: polled)
  from a none show "filter isStopRun (snd (runSuite isDone env suite)) = [StopRun Background (ID runner)]"
    by (simp add: polled)
  from a show "last (snd (runSuite isDone env suite)) = StopRun Background (ID runner)"
    by (simp add: polled)
qed


theorem stop_calls_on_timeout_witness:
  "mapFiles (readFile envTimeout) (Files suiteD) = ([], None) \<and>
   trigger envTimeout = (run1 StateRunning, None, None) \<and>
   errors_Is (Some (ContextError DeadlineExceeded)) DeadlineExceeded \<and>
   Some DeadlineExceeded \<noteq> (None :: ctx_err option) \<and>
   fst (runSuite Done envTimeout suiteD) =
     (Runner0\<lparr>Status := StateCancelled\<rparr>, Some (SuiteTimeoutError (attemptTimeout suiteD))) \<and>
   filter isStopRun (snd (runSuite Done envTimeout suiteD)) = [StopRun Background ''run-1'']"
proof -
  have mf: "mapFiles (readFile envTimeout) (Files suiteD) = ([], None)"
    by (simp add: mapFiles_def suiteD_def Suite0_def)
  have tr: "trigger envTimeout = (run1 StateRunning, None, None)"
    by (simp add: envTimeout_def env0_def)
  have dl: "errors_Is (Some (ContextError DeadlineExceeded)) DeadlineExceeded"
    by (simp add: errors_Is_def)
  have c: "Some DeadlineExceeded \<noteq> (None :: ctx_err option)"
    by simp
  note inst = stop_calls_on_timeout [OF mf tr PollRun_envTimeout, THEN conjunct2, rule_format]
  have pre: "(None :: error option) = None \<and>
      errors_Is (Some (ContextError DeadlineExceeded)) DeadlineExceeded \<and>
      Some DeadlineExceeded \<noteq> (None :: ctx_err option)"
    using dl by simp
  from inst [OF pre]
  have "fst (runSuite Done envTimeout suiteD) =
     (Runner0\<lparr>Status := StateCancelled\<rparr>, Some (SuiteTimeoutError (attemptTimeout suiteD)))"
    and "filter isStopRun (snd (runSuite Done envTimeout suiteD)) = [StopRun Background ''run-1'']"
    by (simp_all add: run1_def)
  with mf tr dl c show ?thesis
    by (intro conjI)
qed

subsection \<open>A run that ends without success (C7)\<close>

text \<open>
  C7: when polling ends with a status of the backend that is done and is not Succeeded,
  the attempt gives back the run as the backend reported it, with an error that is not
  nil: the message is \<open>suite '<name>' failed\<close>, followed by \<open>: \<close> and the termination
  reason when the backend gave one.
\<close>

theorem failed_run_error:
  assumes "mapFiles (readFile env) (Files suite) = (files, None)"
    and "trigger env = (runner, None, c)"
    and "PollRun isDone (WithTimeout rootCtx (attemptTimeout suite)) (ID runner) (ticks env) (doneErr env)
          = ((run, None), c', cs)"
    and "Status run \<noteq> StateSucceeded"
  shows "isDone (Status run) \<and>
         runSuite isDone env suite =
           ((run, Some (Errorf (''suite '' @ [quote] @ Name suite @ [quote] @
                   (if TerminationReason run = '''' then '' failed''
                    else '' failed: '' @ TerminationReason run)))),
            TriggerRun (WithTimeout rootCtx (attemptTimeout suite)) (runnerSpec suite files) # cs)"
proof
  show "isDone (Status run)"
    using assms(3) by (rule PollRun_nil_done)
next
  show "runSuite isDone env suite =
           ((run, Some (Errorf (''suite '' @ [quote] @ Name suite @ [quote] @
                   (if TerminationReason run = '''' then '' failed''
                    else '' failed: '' @ TerminationReason run)))),
            TriggerRun (WithTimeout rootCtx (attemptTimeout suite)) (runnerSpec suite files) # cs)"
    using assms(4) by (simp add: runSuite_polled [OF assms(1-3)] failedError_def)
qed

theorem failed_run_error_witness:
  "mapFiles (readFile envFailedReason) (Files suiteD) = ([], None) \<and>
   trigger envFailedReason = (run1 StateRunning, None, None) \<and>
   StateFailed \<noteq> StateSucceeded \<and>
   fst (runSuite Done envFailedReason suiteD) =
     (\<lparr>ID = ''run-1'', Status = StateFailed, TerminationReason = ''OOMKilled''\<rparr>,
      Some (Errorf (''suite '' @ [quote] @ ''D'' @ [quote] @ '' failed: OOMKilled'')))"
proof -
  have mf: "mapFiles (readFile envFailedReason) (Files suiteD) = ([], None)"
    by (simp add: mapFiles_def suiteD_def Suite0_def)
  have tr: "trigger envFailedReason = (run1 StateRunning, None, None)"
    by (simp add: envFailedReason_def env0_def)
  have pr: "PollRun Done (WithTimeout rootCtx (attemptTimeout suiteD)) (ID (run1 StateRunning))
      (ticks envFailedReason) (doneErr envFailedReason) =
    ((\<lparr>ID = ''run-1'', Status = StateFailed, TerminationReason = ''OOMKilled''\<rparr>, None), None,
     [GetStatus (WithTimeout rootCtx (attemptTimeout suiteD)) (ID (run1 StateRunning))])"
    by (simp add: envFailedReason_def env0_def Done_def)
  have st: "Status \<lparr>ID = ''run-1'', Status = StateFailed, TerminationReason = ''OOMKilled''\<rparr>
      \<noteq> StateSucceeded"
    by (simp add: StateFailed_def StateSucceeded_def)
  then have ne: "StateFailed \<noteq> StateSucceeded"
    by simp
  from failed_run_error [OF mf tr pr st]
  have "fst (runSuite Done envFailedReason suiteD) =
     (\<lparr>ID = ''run-1'', Status = StateFailed, TerminationReason = ''OOMKilled''\<rparr>,
      Some (Errorf (''suite '' @ [quote] @ ''D'' @ [quote] @ '' failed: OOMKilled'')))"
    by (simp add: suiteD_def Suite0_def)
  with mf tr ne show ?thesis
    by (intro conjI)
qed

subsection \<open>Merging the defaults (C5)\<close>

text \<open>
  C5, as the spec states it, has the defaults fill only the fields the suite leaves
  unset, the suite's value winning where both are set. The files (and the artifacts) of
  the defaults are appended to those of the suite, whether the suite has some or not: a
  suite with the file \<open>d.sh\<close> and defaults with the file \<open>common.sh\<close> give both files.
\<close>

theorem defaults_files_counterexample:
  "Files (applyDefaults (Suite0\<lparr>Files := [\<lparr>Src = ''common.sh'', Dst = ''/common.sh''\<rparr>]\<rparr>)
            (suiteD\<lparr>Files := [\<lparr>Src = ''d.sh'', Dst = ''/d.sh''\<rparr>]\<rparr>)) =
     [\<lparr>Src = ''d.sh'', Dst = ''/d.sh''\<rparr>, \<lparr>Src = ''common.sh'', Dst = ''/common.sh''\<rparr>] \<and>
   Files (applyDefaults (Suite0\<lparr>Files := [\<lparr>Src = ''common.sh'', Dst = ''/common.sh''\<rparr>]\<rparr>)
            (suiteD\<lparr>Files := [\<lparr>Src = ''d.sh'', Dst = ''/d.sh''\<rparr>]\<rparr>)) \<noteq>
     Files (suiteD\<lparr>Files := [\<lparr>Src = ''d.sh'', Dst = ''/d.sh''\<rparr>]\<rparr>)"
  by (simp add: applyDefaults_def)

text \<open>
  C5, amended: the image, the pull credentials, the entry point and the timeout are the
  suite's unless the suite leaves them at the zero value, and the defaults' then; the
  files and the artifacts are the suite's followed by the defaults'; an environment
  variable that only the suite sets keeps the suite's value, and one that only the
  defaults set has the defaults' value; the name is prefixed with the name of the
  defaults when they have one. Then one result is pushed for the suite, under the merged
  name.
\<close>

theorem applyDefaults_merge:
  "Image (applyDefaults defaults suite) = (if Image suite = '''' then Image defaults else Image suite) \<and>
   ImagePullAuth (applyDefaults defaults suite) =
     (if ImagePullAuth suite = Auth0 then ImagePullAuth defaults else ImagePullAuth suite) \<and>
   EntryPoint (applyDefaults defaults suite) =
     (if EntryPoint suite = '''' then EntryPoint defaults else EntryPoint suite) \<and>
   Timeout (applyDefaults defaults suite) =
     (if Timeout suite = 0 then Timeout defaults else Timeout suite) \<and>
   Files (applyDefaults defaults suite) = Files suite @ Files defaults \<and>
   Artifacts (applyDefaults defaults suite) = Artifacts suite @ Artifacts defaults \<and>
   (\<forall>k. Env defaults k = None \<longrightarrow> Env (applyDefaults defaults suite) k = Env suite k) \<and>
   (\<forall>k. Env suite k = None \<longrightarrow> Env (applyDefaults defaults suite) k = Env defaults k) \<and>
   Name (applyDefaults defaults suite) =
     (if Name defaults = '''' then Name suite else Name defaults @ '' '' @ Name suite) \<and>
   runSuites isDone defaults envs n [suite] = [runSuites_body isDone defaults (envs n) suite] \<and>
   name (fst (runSuites_body isDone defaults (envs n) suite)) = Name (applyDefaults defaults suite)"
proof -
  have env1: "\<forall>k. Env defaults k = None \<longrightarrow> Env (applyDefaults defaults suite) k = Env suite k"
    by (simp add: applyDefaults_def map_add_def)
  have env2: "\<forall>k. Env suite k = None \<longrightarrow> Env (applyDefaults defaults suite) k = Env defaults k"
    by (simp add: applyDefaults_def map_add_def split: option.splits)
  have nm: "name (fst (runSuites_body isDone defaults (envs n) suite)) = Name (applyDefaults defaults suite)"
    by (cases "rootErr (envs n) = None")
      (simp_all add: body_not_cancelled body_cancelled split: prod.splits)
  show ?thesis
    using env1 env2 nm by (simp add: applyDefaults_def orDefault_def)
qed

theorem applyDefaults_merge_witness:
  "Env (Suite0\<lparr>Env := [''B'' \<mapsto> ''default'']\<rparr>) ''A'' = None \<and>
   Env (applyDefaults (Suite0\<lparr>Env := [''B'' \<mapsto> ''default'']\<rparr>) (suiteD\<lparr>Env := [''A'' \<mapsto> ''mine'']\<rparr>)) ''A''
     = Some ''mine'' \<and>
   Env (suiteD\<lparr>Env := [''A'' \<mapsto> ''mine'']\<rparr>) ''B'' = None \<and>
   Env (applyDefaults (Suite0\<lparr>Env := [''B'' \<mapsto> ''default'']\<rparr>) (suiteD\<lparr>Env := [''A'' \<mapsto> ''mine'']\<rparr>)) ''B''
     = Some ''default'' \<and>
   Image (applyDefaults (Suite0\<lparr>Env := [''B'' \<mapsto> ''default'']\<rparr>) (suiteD\<lparr>Env := [''A'' \<mapsto> ''mine'']\<rparr>))
     = ''busybox''"
proof -
  note inst = applyDefaults_merge [of "Suite0\<lparr>Env := [''B'' \<mapsto> ''default'']\<rparr>"
      "suiteD\<lparr>Env := [''A'' \<mapsto> ''mine'']\<rparr>" Done "\<lambda>k. env0" 0]
  have a: "Env (Suite0\<lparr>Env := [''B'' \<mapsto> ''default'']\<rparr>) ''A'' = None"
    by simp
  have b: "Env (suiteD\<lparr>Env := [''A'' \<mapsto> ''mine'']\<rparr>) ''B'' = None"
    by simp
  from inst a
  have "Env (applyDefaults (Suite0\<lparr>Env := [''B'' \<mapsto> ''default'']\<rparr>)
      (suiteD\<lparr>Env := [''A'' \<mapsto> ''mine'']\<rparr>)) ''A'' = Env (suiteD\<lparr>Env := [''A'' \<mapsto> ''mine'']\<rparr>) ''A''"
    by blast
  then have a': "Env (applyDefaults (Suite0\<lparr>Env := [''B'' \<mapsto> ''default'']\<rparr>)
      (suiteD\<lparr>Env := [''A'' \<mapsto> ''mine'']\<rparr>)) ''A'' = Some ''mine''"
    by simp
  from inst b
  have "Env (applyDefaults (Suite0\<lparr>Env := [''B'' \<mapsto> ''default'']\<rparr>)
      (suiteD\<lparr>Env := [''A'' \<mapsto> ''mine'']\<rparr>)) ''B'' = Env (Suite0\<lparr>Env := [''B'' \<mapsto> ''default'']\<rparr>) ''B''"
    by blast
  then have b': "Env (applyDefaults (Suite0\<lparr>Env := [''B'' \<mapsto> ''default'']\<rparr>)
      (suiteD\<lparr>Env := [''A'' \<mapsto> ''mine'']\<rparr>)) ''B'' = Some ''default''"
    by simp
  from inst
  have "Image (applyDefaults (Suite0\<lparr>Env := [''B'' \<mapsto> ''default'']\<rparr>)
      (suiteD\<lparr>Env := [''A'' \<mapsto> ''mine'']\<rparr>)) =
    (if Image (suiteD\<lparr>Env := [''A'' \<mapsto> ''mine'']\<rparr>) = ''''
     then Image (Suite0\<lparr>Env := [''B'' \<mapsto> ''default'']\<rparr>)
     else Image (suiteD\<lparr>Env := [''A'' \<mapsto> ''mine'']\<rparr>))"
    by (rule conjunct1)
  then have c: "Image (applyDefaults (Suite0\<lparr>Env := [''B'' \<mapsto> ''default'']\<rparr>)
      (suiteD\<lparr>Env := [''A'' \<mapsto> ''mine'']\<rparr>)) = ''busybox''"
    by (simp add: suiteD_def Suite0_def)
  from a a' b b' c show ?thesis
    by (intro conjI)
qed

text \<open>Where the suite and the defaults both set a variable, the loop over the map of
  the defaults assigns last.\<close>

lemma applyDefaults_env_both:
  "Env defaults k = Some v \<Longrightarrow> Env (applyDefaults defaults suite) k = Some v"
  by (simp add: applyDefaults_def)

subsection \<open>The verdict and the exit code (C6)\<close>

lemma collect_body_passed:
  "passed (collect_body glob cfg env res st) = (passed st \<and> err res = None)"
  by (simp add: collect_body_def Let_def)

lemma collect_body_inProgress:
  "inProgress (collect_body glob cfg env res st) = inProgress st - 1"
  by (simp add: collect_body_def Let_def)

lemma collect_loop_returns:
  "k \<le> length ch \<Longrightarrow>
   \<exists>st'. collect_loop glob cfg cenvs i k ch st = Some (st', drop k ch) \<and>
         passed st' = (passed st \<and> (\<forall>r \<in> set (take k ch). err r = None)) \<and>
         inProgress st' = inProgress st - int k"
proof (induction k arbitrary: i ch st)
  case 0
  then show ?case by simp
next
  case (Suc k)
  then obtain res ch' where ch: "ch = res # ch'"
    by (cases ch) auto
  with Suc.prems have "k \<le> length ch'"
    by simp
  from Suc.IH [OF this, of "Suc i" "collect_body glob cfg (cenvs i) res st"]
  obtain st' where
    "collect_loop glob cfg cenvs (Suc i) k ch' (collect_body glob cfg (cenvs i) res st)
       = Some (st', drop k ch')"
    "passed st' = (passed (collect_body glob cfg (cenvs i) res st) \<and>
       (\<forall>r \<in> set (take k ch'). err r = None))"
    "inProgress st' = inProgress (collect_body glob cfg (cenvs i) res st) - int k"
    by blast
  then show ?case
    by (auto simp: ch collect_body_passed collect_body_inProgress)
qed

lemma collect_loop_blocks:
  "length ch < k \<Longrightarrow> collect_loop glob cfg cenvs i k ch st = None"
proof (induction k arbitrary: i ch st)
  case 0
  then show ?case by simp
next
  case (Suc k)
  then show ?case by (cases ch) auto
qed

lemma collectResults_returns:
  assumes "k \<le> length ch"
  shows "\<exists>st. collectResults glob cfg cenvs n ch (int k) = Some (st, drop k ch) \<and>
              passed st = (\<forall>r \<in> set (take k ch). err r = None) \<and> inProgress st = 0"
  using collect_loop_returns [OF assms, of glob cfg cenvs 0
      "\<lparr>passed = True, inProgress = int k, reporters = replicate n [], collector_calls = []\<rparr>"]
  by (auto simp: collectResults_def)

lemma createWorkerPool_1_0:
  "createWorkerPool 1 0 =
     Inr \<lparr>suites = \<lparr>cap = 1, buf = []\<rparr>, results = \<lparr>cap = 1, buf = []\<rparr>, workers = 1\<rparr>"
  using createWorkerPool_ok [of 1 0] by simp

lemma RunProject_exitStatus:
  "exitStatus (RunProject isDone glob n project envs cenvs) =
     Some (if \<forall>r \<in> set (map fst (runSuites isDone (Defaults project) envs 0 (Suites project))).
                err r = None
           then 0 else 1)"
proof -
  let ?rs = "runSuites isDone (Defaults project) envs 0 (Suites project)"
  have "length (Suites project) \<le> length (map fst ?rs)"
    by (simp add: runSuites_length)
  from collectResults_returns [OF this, of glob "Download project" cenvs n]
  obtain st where
    c: "collectResults glob (Download project) cenvs n (map fst ?rs) (int (length (Suites project)))
        = Some (st, drop (length (Suites project)) (map fst ?rs))"
    and p: "passed st = (\<forall>r \<in> set (take (length (Suites project)) (map fst ?rs)). err r = None)"
    by blast
  have "take (length (Suites project)) (map fst ?rs) = map fst ?rs"
    by (simp add: runSuites_length)
  with p have p': "passed st = (\<forall>r \<in> set (map fst ?rs). err r = None)"
    by simp
  show ?thesis
    using p' by (simp add: RunProject_def createWorkerPool_1_0 c Let_def)
qed

text \<open>
  C6: \<^verbatim>\<open>collectResults\<close> receives exactly \<^verbatim>\<open>expected\<close> results (it returns with the
  rest of the channel untouched when that many arrive, and blocks otherwise); its verdict
  is the conjunction of the successes of the results received, a result with an error
  making it false; \<^verbatim>\<open>RunProject\<close>, which expects as many results as the project has suites
  and gets one from the worker for each, returns, with the exit code 0 if and only if no
  result has an error, and 1 otherwise.
\<close>

theorem verdict_and_exit_code:
  "(\<forall>k \<le> length ch. \<exists>st. collectResults glob cfg cenvs n ch (int k) = Some (st, drop k ch) \<and>
        passed st = (\<forall>r \<in> set (take k ch). err r = None)) \<and>
   (\<forall>k > length ch. collectResults glob cfg cenvs n ch (int k) = None) \<and>
   length (runSuites isDone (Defaults project) envs 0 (Suites project)) = length (Suites project) \<and>
   exitStatus (RunProject isDone glob n project envs cenvs) =
     Some (if \<forall>r \<in> set (map fst (runSuites isDone (Defaults project) envs 0 (Suites project))).
                err r = None
           then 0 else 1)"
proof (intro conjI allI impI)
  fix k assume "k \<le> length ch"
  from collectResults_returns [OF this, of glob cfg cenvs n]
  show "\<exists>st. collectResults glob cfg cenvs n ch (int k) = Some (st, drop k ch) \<and>
        passed st = (\<forall>r \<in> set (take k ch). err r = None)"
    by blast
next
  fix k assume "length ch < k"
  then show "collectResults glob cfg cenvs n ch (int k) = None"
    by (simp add: collectResults_def collect_loop_blocks)
next
  show "length (runSuites isDone (Defaults project) envs 0 (Suites project)) = length (Suites project)"
    by (rule runSuites_length)
next
  show "exitStatus (RunProject isDone glob n project envs cenvs) =
     Some (if \<forall>r \<in> set (map fst (runSuites isDone (Defaults project) envs 0 (Suites project))).
                err r = None
           then 0 else 1)"
    by (rule RunProject_exitStatus)
qed

lemma projectD_fails:
  "map (err \<circ> fst) (runSuites Done (Defaults projectD) envsFailThenSucceed 0 (Suites projectD)) =
     [Some (Errorf (''suite '' @ [quote] @ ''D'' @ [quote] @ '' failed'')), None]"
  by (simp add: projectD_def worker_defs concrete_defs)

lemma projectD_succeeds:
  "map (err \<circ> fst) (runSuites Done (Defaults projectD) (\<lambda>k. envSucceeded) 0 (Suites projectD)) =
     [None, None]"
  by (simp add: projectD_def worker_defs concrete_defs)

lemma all_err_None: "(\<forall>r \<in> set (map fst rs). err r = None) = (\<forall>e \<in> set (map (err \<circ> fst) rs). e = None)"
  by auto

theorem verdict_and_exit_code_witness:
  "exitStatus (RunProject Done globSimple 1 projectD envsFailThenSucceed (\<lambda>k. cenv0)) = Some 1 \<and>
   exitStatus (RunProject Done globSimple 1 projectD (\<lambda>k. envSucceeded) (\<lambda>k. cenv0)) = Some 0 \<and>
   (3 :: nat) > length ([] :: execResult list) \<and>
   collectResults globSimple downloadTxt (\<lambda>k. cenv0) 1 [] (int 3) = None \<and>
   (0 :: nat) \<le> length ([] :: execResult list) \<and>
   (\<exists>st. collectResults globSimple downloadTxt (\<lambda>k. cenv0) 1 [] (int 0) = Some (st, drop 0 []) \<and>
      passed st = (\<forall>r \<in> set (take 0 ([] :: execResult list)). err r = None))"
proof -
  have "exitStatus (RunProject Done globSimple 1 projectD envsFailThenSucceed (\<lambda>k. cenv0)) =
     Some (if \<forall>r \<in> set (map fst (runSuites Done (Defaults projectD) envsFailThenSucceed 0
                (Suites projectD))). err r = None
           then 0 else 1)"
    using verdict_and_exit_code [of "[]" globSimple downloadTxt "\<lambda>k. cenv0" 1 Done projectD
        envsFailThenSucceed] by (elim conjE)
  then have a: "exitStatus (RunProject Done globSimple 1 projectD envsFailThenSucceed (\<lambda>k. cenv0)) = Some 1"
    by (simp only: all_err_None projectD_fails) simp
  have "exitStatus (RunProject Done globSimple 1 projectD (\<lambda>k. envSucceeded) (\<lambda>k. cenv0)) =
     Some (if \<forall>r \<in> set (map fst (runSuites Done (Defaults projectD) (\<lambda>k. envSucceeded) 0
                (Suites projectD))). err r = None
           then 0 else 1)"
    using verdict_and_exit_code [of "[]" globSimple downloadTxt "\<lambda>k. cenv0" 1 Done projectD
        "\<lambda>k. envSucceeded"] by (elim conjE)
  then have b: "exitStatus (RunProject Done globSimple 1 projectD (\<lambda>k. envSucceeded) (\<lambda>k. cenv0)) = Some 0"
    by (simp only: all_err_None projectD_succeeds) simp
  have k: "(3 :: nat) > length ([] :: execResult list)"
    by simp
  have "\<forall>k > length ([] :: execResult list).
      collectResults globSimple downloadTxt (\<lambda>k. cenv0) 1 [] (int k) = None"
    using verdict_and_exit_code [of "[]" globSimple downloadTxt "\<lambda>k. cenv0" 1 Done projectD
        envsFailThenSucceed] by (elim conjE)
  then have "(3 :: nat) > length ([] :: execResult list) \<longrightarrow>
      collectResults globSimple downloadTxt (\<lambda>k. cenv0) 1 [] (int 3) = None"
    by (rule spec)
  with k have c: "collectResults globSimple downloadTxt (\<lambda>k. cenv0) 1 [] (int 3) = None"
    by (rule rev_mp)
  have z: "(0 :: nat) \<le> length ([] :: execResult list)"
    by simp
  have "\<forall>k \<le> length ([] :: execResult list).
      \<exists>st. collectResults globSimple downloadTxt (\<lambda>k. cenv0) 1 [] (int k) = Some (st, drop k []) \<and>
        passed st = (\<forall>r \<in> set (take k ([] :: execResult list)). err r = None)"
    using verdict_and_exit_code [of "[]" globSimple downloadTxt "\<lambda>k. cenv0" 1 Done projectD
        envsFailThenSucceed] by (elim conjE)
  then have "(0 :: nat) \<le> length ([] :: execResult list) \<longrightarrow>
      (\<exists>st. collectResults globSimple downloadTxt (\<lambda>k. cenv0) 1 [] (int 0) = Some (st, drop 0 []) \<and>
        passed st = (\<forall>r \<in> set (take 0 ([] :: execResult list)). err r = None))"
    by (rule spec)
  with z have d: "\<exists>st. collectResults globSimple downloadTxt (\<lambda>k. cenv0) 1 [] (int 0) = Some (st, drop 0 []) \<and>
        passed st = (\<forall>r \<in> set (take 0 ([] :: execResult list)). err r = None)"
    by (rule rev_mp)
  from a b k c z d show ?thesis
    by (intro conjI)
qed

end
